theory Spec2Isabelle
  imports Main "HOL-Library.Multiset" "HOL-Library.Word"
begin

section \<open>The disk the two services work on\<close>

text \<open>
  Both services of \<^verbatim>\<open>meltano.core\<close> are wrappers around file I/O. The disk is
  modelled explicitly: regular files in the order a directory traversal meets them, the
  directories that exist on their own, the paths the operating system refuses to open
  for writing or to unlink, a clock that stamps new files, the table of open handles,
  and the records sent to \<^verbatim>\<open>logging.error\<close>.

  A path is the list of its components. A file's content is the text that reading it
  returns; its size in bytes is the length of that text (one byte per character).
\<close>

type_synonym path = "string list"

record inode =
  content :: string
  st_ctime_ns :: int

datatype handle = FileHandle path | DevNull

record world =
  files :: "(path \<times> inode) list"
  dirs :: "path list"
  unwritable :: "path list"
  undeletable :: "path list"
  clock :: int
  open_handles :: "handle list"
  error_log :: "string list"

text \<open>
  A \<^verbatim>\<open>ProjectPlugin\<close> is a plugin reference (type and name) together with the name of
  its variant; its definition is reached through the plugin model, a collaborator.
\<close>

record project_plugin =
  plugin_type :: string
  plugin_name :: string
  plugin_variant :: string

text \<open>
  The exceptions of the two modules and of the built-ins they call. \<open>OSError\<close> stands
  for every \<^verbatim>\<open>OSError\<close> other than \<^verbatim>\<open>FileNotFoundError\<close>, which is a subclass of it;
  \<open>Raised\<close> for what a collaborator raises (an unknown variant, a JSON decoding error,
  a write to a closed file). Messages are left out; \<open>LockfileAlreadyExistsError\<close>
  keeps its two attributes.
\<close>

datatype error =
    MissingJobLogException
  | SizeThresholdJobLogException
  | LockfileAlreadyExistsError path project_plugin
  | FileNotFoundError
  | OSError
  | RuntimeError
  | Raised string

definition is_OSError :: "error \<Rightarrow> bool" where
  "is_OSError e = (e = OSError \<or> e = FileNotFoundError)"

definition is_under :: "path \<Rightarrow> path \<Rightarrow> bool" where
  "is_under d q = (length d < length q \<and> take (length d) q = d)"

definition lookup_file :: "world \<Rightarrow> path \<Rightarrow> inode option" where
  "lookup_file w p = map_of (files w) p"

definition is_directory :: "world \<Rightarrow> path \<Rightarrow> bool" where
  "is_directory w p = (p \<in> set (dirs w) \<or> list_ex (\<lambda>(q, f). is_under p q) (files w))"

text \<open>\<^verbatim>\<open>Path.exists()\<close>\<close>

definition path_exists :: "world \<Rightarrow> path \<Rightarrow> bool" where
  "path_exists w p = (lookup_file w p \<noteq> None \<or> is_directory w p)"

text \<open>The rendering of an absolute path, \<^verbatim>\<open>str(path.resolve())\<close>.\<close>

definition path_str :: "path \<Rightarrow> string" where
  "path_str p = concat (map (\<lambda>c. ''/'' @ c) p)"

text \<open>
  \<^verbatim>\<open>open(p, "w")\<close>: refused with an \<^verbatim>\<open>OSError\<close> at an unwritable path or at a
  directory; otherwise the file is created (stamped with the clock, last in traversal
  order) or truncated, and its handle is open.
\<close>

definition set_content :: "path \<Rightarrow> (string \<Rightarrow> string) \<Rightarrow> (path \<times> inode) list \<Rightarrow> (path \<times> inode) list" where
  "set_content p g fs = map (\<lambda>(q, f). if q = p then (q, f\<lparr>content := g (content f)\<rparr>) else (q, f)) fs"

definition open_w :: "path \<Rightarrow> world \<Rightarrow> error + world" where
  "open_w p w =
     (if p \<in> set (unwritable w) \<or> is_directory w p then Inl OSError
      else Inr (w\<lparr>files :=
                    (case lookup_file w p of
                       None \<Rightarrow> files w @ [(p, \<lparr>content = [], st_ctime_ns = clock w\<rparr>)]
                     | Some f \<Rightarrow> set_content p (\<lambda>_. []) (files w)),
                  clock := clock w + 1,
                  open_handles := FileHandle p # open_handles w\<rparr>))"

text \<open>\<^verbatim>\<open>open(os.devnull, "w")\<close>\<close>

definition open_devnull :: "world \<Rightarrow> world" where
  "open_devnull w = w\<lparr>open_handles := DevNull # open_handles w\<rparr>"

definition close_h :: "handle \<Rightarrow> world \<Rightarrow> world" where
  "close_h h w = w\<lparr>open_handles := remove1 h (open_handles w)\<rparr>"

text \<open>\<^verbatim>\<open>f.write(s)\<close>: a closed file raises; the null device discards what it is given.\<close>

definition write_h :: "handle \<Rightarrow> string \<Rightarrow> world \<Rightarrow> error + world" where
  "write_h h s w =
     (if h \<notin> set (open_handles w) then Inl (Raised ''ValueError'')
      else case h of
             DevNull \<Rightarrow> Inr w
           | FileHandle p \<Rightarrow> Inr (w\<lparr>files := set_content p (\<lambda>c. c @ s) (files w)\<rparr>))"

text \<open>\<^verbatim>\<open>with open(p) as f: f.read()\<close> and \<^verbatim>\<open>p.read_bytes()\<close>\<close>

definition read_file :: "path \<Rightarrow> world \<Rightarrow> error + string" where
  "read_file p w =
     (case lookup_file w p of
        Some f \<Rightarrow> Inr (content f)
      | None \<Rightarrow> if is_directory w p then Inl OSError else Inl FileNotFoundError)"

text \<open>\<^verbatim>\<open>p.stat().st_size\<close>\<close>

definition stat_size :: "path \<Rightarrow> world \<Rightarrow> error + nat" where
  "stat_size p w =
     (case lookup_file w p of
        Some f \<Rightarrow> Inr (length (content f))
      | None \<Rightarrow> Inl FileNotFoundError)"

text \<open>
  \<^verbatim>\<open>p.unlink()\<close>: a missing path raises \<^verbatim>\<open>FileNotFoundError\<close>, a path the
  operating system protects raises an \<^verbatim>\<open>OSError\<close>; otherwise the file is gone, and
  the directories that held it stay.
\<close>

definition ancestors :: "path \<Rightarrow> path list" where
  "ancestors p = map (\<lambda>n. take n p) [0..<length p]"

definition unlink :: "path \<Rightarrow> world \<Rightarrow> error + world" where
  "unlink p w =
     (case lookup_file w p of
        None \<Rightarrow> Inl FileNotFoundError
      | Some f \<Rightarrow>
          if p \<in> set (undeletable w) then Inl OSError
          else Inr (w\<lparr>files := filter (\<lambda>(q, g). q \<noteq> p) (files w),
                      dirs := ancestors p @ dirs w\<rparr>))"

section \<open>The collaborators of the project\<close>

text \<open>
  The project resolves the paths; \<^verbatim>\<open>meltano.core.utils\<close> supplies \<^verbatim>\<open>slugify\<close> and
  the \<^verbatim>\<open>makedirs\<close> decorator. None of them is part of the two modules: they are
  parameters. \<open>makedirs_dirs\<close> gives the directories the decorator makes sure exist for
  a path it is handed.
\<close>

record project =
  job_logs_dir :: "string \<Rightarrow> string list \<Rightarrow> path"
  run_dir :: "string \<Rightarrow> path"
  plugin_lock_path :: "string \<Rightarrow> string \<Rightarrow> string \<Rightarrow> path"
  makedirs_dirs :: "path \<Rightarrow> path list"
  slugify :: "string \<Rightarrow> string"

definition makedirs :: "project \<Rightarrow> path \<Rightarrow> world \<Rightarrow> world" where
  "makedirs pr p w = w\<lparr>dirs := makedirs_dirs pr p @ dirs w\<rparr>"

section \<open>\<^verbatim>\<open>JobLoggingService\<close>\<close>

definition MAX_FILE_SIZE :: nat where
  "MAX_FILE_SIZE = 2097152"

definition logs_dir :: "project \<Rightarrow> string \<Rightarrow> string list \<Rightarrow> world \<Rightarrow> path \<times> world" where
  "logs_dir pr state_id joinpaths w =
     (let p = job_logs_dir pr state_id joinpaths in (p, makedirs pr p w))"

definition generate_log_name :: "project \<Rightarrow> string \<Rightarrow> string \<Rightarrow> string \<Rightarrow> world \<Rightarrow> path \<times> world" where
  "generate_log_name pr state_id run_id file_name w = logs_dir pr state_id [run_id, file_name] w"

definition legacy_logs_dir :: "project \<Rightarrow> string \<Rightarrow> string list \<Rightarrow> world \<Rightarrow> path option" where
  "legacy_logs_dir pr state_id joinpaths w =
     (let job_dir = run_dir pr ''elt'' @ slugify pr state_id # joinpaths
      in if path_exists w job_dir then Some job_dir else None)"

definition logs_dirs :: "project \<Rightarrow> string \<Rightarrow> string list \<Rightarrow> world \<Rightarrow> path list \<times> world" where
  "logs_dirs pr state_id joinpaths w =
     (let (primary, w1) = logs_dir pr state_id joinpaths w;
          legacy = legacy_logs_dir pr state_id joinpaths w1;
          ds = [primary]
      in (case legacy of Some d \<Rightarrow> ds @ [d] | None \<Rightarrow> ds, w1))"

text \<open>
  \<^verbatim>\<open>logs_dir.glob("**/*.log")\<close>: the files at any depth below the directory whose
  name ends in \<^verbatim>\<open>.log\<close>, in traversal order, each with the inode \<^verbatim>\<open>os.stat\<close> reads.
\<close>

definition fnmatch_log :: "string \<Rightarrow> bool" where
  "fnmatch_log name = (4 \<le> length name \<and> drop (length name - 4) name = ''.log'')"

definition glob_logs :: "world \<Rightarrow> path \<Rightarrow> (path \<times> inode) list" where
  "glob_logs w d = filter (\<lambda>(q, f). is_under d q \<and> fnmatch_log (last q)) (files w)"

text \<open>
  \<^verbatim>\<open>sorted(..., key=st_ctime_ns, reverse=True)\<close> is stable: files with the same
  timestamp keep the order in which the globs found them. That is the stable ascending
  sort on the negated key.
\<close>

definition found_logs :: "project \<Rightarrow> string \<Rightarrow> world \<Rightarrow> (path \<times> inode) list \<times> world" where
  "found_logs pr state_id w =
     (let (ds, w1) = logs_dirs pr state_id [] w
      in (sort_key (\<lambda>(q, f). - st_ctime_ns f) (concat (map (glob_logs w1) ds)), w1))"

definition get_all_logs :: "project \<Rightarrow> string \<Rightarrow> world \<Rightarrow> path list \<times> world" where
  "get_all_logs pr state_id w =
     (let (found, w1) = found_logs pr state_id w in (map fst found, w1))"

text \<open>
  The two \<^verbatim>\<open>except\<close> clauses of \<^verbatim>\<open>get_latest_log\<close> and \<^verbatim>\<open>get_downloadable_log\<close>:
  \<^verbatim>\<open>StopIteration\<close> is the empty list below; a \<^verbatim>\<open>FileNotFoundError\<close> becomes a
  \<^verbatim>\<open>MissingJobLogException\<close>, and anything else passes through.
\<close>

definition missing_handler :: "error \<Rightarrow> error" where
  "missing_handler e = (if e = FileNotFoundError then MissingJobLogException else e)"

text \<open>
  \<^verbatim>\<open>get_latest_log\<close>. Other processes may change the disk while it runs: \<open>env1\<close> is
  what they do between the discovery of the logs and the \<^verbatim>\<open>stat\<close> call, \<open>env2\<close>
  between the \<^verbatim>\<open>stat\<close> call and the read. On a quiet disk both are the identity.
\<close>

definition get_latest_log_env ::
  "(world \<Rightarrow> world) \<Rightarrow> (world \<Rightarrow> world) \<Rightarrow> project \<Rightarrow> string \<Rightarrow> world \<Rightarrow> (error + string) \<times> world" where
  "get_latest_log_env env1 env2 pr state_id w =
     (let (logs, w1) = get_all_logs pr state_id w
      in case logs of
           [] \<Rightarrow> (Inl MissingJobLogException, w1)
         | latest_log # _ \<Rightarrow>
             (let w2 = env1 w1
              in case stat_size latest_log w2 of
                   Inl e \<Rightarrow> (Inl (missing_handler e), w2)
                 | Inr sz \<Rightarrow>
                     if sz > MAX_FILE_SIZE then (Inl SizeThresholdJobLogException, w2)
                     else (let w3 = env2 w2
                           in case read_file latest_log w3 of
                                Inl e \<Rightarrow> (Inl (missing_handler e), w3)
                              | Inr text \<Rightarrow> (Inr text, w3))))"

definition get_latest_log :: "project \<Rightarrow> string \<Rightarrow> world \<Rightarrow> (error + string) \<times> world" where
  "get_latest_log pr state_id w = get_latest_log_env id id pr state_id w"

definition get_downloadable_log :: "project \<Rightarrow> string \<Rightarrow> world \<Rightarrow> (error + string) \<times> world" where
  "get_downloadable_log pr state_id w =
     (let (logs, w1) = get_all_logs pr state_id w
      in case logs of
           [] \<Rightarrow> (Inl MissingJobLogException, w1)
         | latest_log # _ \<Rightarrow> (Inr (path_str latest_log), w1))"

text \<open>\<^verbatim>\<open>delete_all_logs\<close>: the loop stops at the first \<^verbatim>\<open>unlink\<close> that raises.\<close>

primrec unlink_each :: "path list \<Rightarrow> world \<Rightarrow> error option \<times> world" where
  "unlink_each [] w = (None, w)"
| "unlink_each (log_path # rest) w =
     (case unlink log_path w of
        Inl e \<Rightarrow> (Some e, w)
      | Inr w' \<Rightarrow> unlink_each rest w')"

definition delete_all_logs :: "project \<Rightarrow> string \<Rightarrow> world \<Rightarrow> error option \<times> world" where
  "delete_all_logs pr state_id w =
     (let (logs, w1) = get_all_logs pr state_id w in unlink_each logs w1)"

text \<open>
  \<^verbatim>\<open>create_log\<close> is a generator wrapped by \<^verbatim>\<open>contextlib.contextmanager\<close>; it is
  modelled together with the \<^verbatim>\<open>with\<close> statement that uses it. \<open>body\<close> is the block
  of the caller: it is handed the yielded file and returns the exception it raised, if
  any. An exception of the body is thrown into the generator at its \<^verbatim>\<open>yield\<close>: the
  log file is closed on the way out of the inner \<^verbatim>\<open>with\<close>, and an \<^verbatim>\<open>OSError\<close> is
  then caught by the same \<^verbatim>\<open>except\<close> clause, which yields a second time, so that
  \<^verbatim>\<open>contextmanager\<close> raises \<^verbatim>\<open>RuntimeError\<close> and closes the generator.
\<close>

definition open_failed_message :: "path \<Rightarrow> string" where
  "open_failed_message log_file_name =
     ''Could open log file '' @ path_str log_file_name @ '' for writting. Using /dev/null''"

definition logging_error :: "string \<Rightarrow> world \<Rightarrow> world" where
  "logging_error msg w = w\<lparr>error_log := error_log w @ [msg]\<rparr>"

definition create_log ::
  "project \<Rightarrow> string \<Rightarrow> string \<Rightarrow> string \<Rightarrow> (handle \<Rightarrow> world \<Rightarrow> error option \<times> world)
     \<Rightarrow> world \<Rightarrow> error option \<times> world" where
  "create_log pr state_id run_id file_name body w =
     (let (log_file_name, w1) = generate_log_name pr state_id run_id file_name w
      in case open_w log_file_name w1 of
           Inr w2 \<Rightarrow>
             (let log_file = FileHandle log_file_name
              in case body log_file w2 of
                   (None, w3) \<Rightarrow> (None, close_h log_file w3)
                 | (Some e, w3) \<Rightarrow>
                     (let w4 = close_h log_file w3
                      in if is_OSError e
                         then (Some RuntimeError,
                               close_h DevNull
                                 (open_devnull (logging_error (open_failed_message log_file_name) w4)))
                         else (Some e, w4)))
         | Inl e \<Rightarrow>
             if is_OSError e
             then (let w2 = open_devnull (logging_error (open_failed_message log_file_name) w1)
                   in case body DevNull w2 of (r, w3) \<Rightarrow> (r, close_h DevNull w3))
             else (Some e, w1))"

section \<open>\<^verbatim>\<open>PluginLock\<close> and \<^verbatim>\<open>PluginLockService\<close>\<close>

text \<open>
  The plugin model (\<^verbatim>\<open>meltano.core.plugin\<close>), the JSON codec and SHA-256 are
  collaborators: the definition \<open>'d\<close>, its variants \<open>'v\<close>, the standalone plugin
  \<open>'sp\<close> and the canonical mapping \<open>'c\<close> are type parameters, and the operations the
  module calls on them are the fields of \<open>plugin_api\<close>. \<open>json_dump\<close> is
  \<^verbatim>\<open>json.dump(_, indent=2)\<close> as text, \<open>json_load\<close> is \<^verbatim>\<open>json.load\<close>, and
  \<open>StandalonePlugin\<close> is the constructor call \<^verbatim>\<open>StandalonePlugin(**mapping)\<close>.
\<close>

record ('d, 'v, 'sp, 'c) plugin_api =
  plugin_definition :: "project_plugin \<Rightarrow> 'd"
  definition_type :: "'d \<Rightarrow> string"
  definition_name :: "'d \<Rightarrow> string"
  find_variant :: "'d \<Rightarrow> string \<Rightarrow> error + 'v"
  variant_name :: "'v \<Rightarrow> string"
  from_variant :: "'v \<Rightarrow> 'd \<Rightarrow> 'sp"
  canonical :: "'sp \<Rightarrow> 'c"
  json_dump :: "'c \<Rightarrow> string"
  json_load :: "string \<Rightarrow> error + 'c"
  StandalonePlugin :: "'c \<Rightarrow> error + 'sp"

record ('d, 'v) plugin_lock =
  lock_definition :: 'd
  lock_variant :: 'v
  lock_path :: path

text \<open>\<^verbatim>\<open>PluginLock.__init__\<close>\<close>

definition PluginLock ::
  "project \<Rightarrow> ('d, 'v, 'sp, 'c) plugin_api \<Rightarrow> project_plugin
     \<Rightarrow> error + ('d, 'v) plugin_lock" where
  "PluginLock pr api plugin =
     (let d = plugin_definition api plugin
      in case find_variant api d (plugin_variant plugin) of
           Inl e \<Rightarrow> Inl e
         | Inr v \<Rightarrow>
             Inr \<lparr>lock_definition = d, lock_variant = v,
                  lock_path = plugin_lock_path pr (definition_type api d) (definition_name api d)
                                (variant_name api v)\<rparr>)"

text \<open>What \<^verbatim>\<open>PluginLock.save\<close> writes: \<^verbatim>\<open>locked_def.canonical()\<close>.\<close>

definition locked_canonical :: "('d, 'v, 'sp, 'c) plugin_api \<Rightarrow> ('d, 'v) plugin_lock \<Rightarrow> 'c" where
  "locked_canonical api lock =
     canonical api (from_variant api (lock_variant lock) (lock_definition lock))"

definition PluginLock_save ::
  "('d, 'v, 'sp, 'c) plugin_api \<Rightarrow> ('d, 'v) plugin_lock \<Rightarrow> world
     \<Rightarrow> error option \<times> world" where
  "PluginLock_save api lock w =
     (case open_w (lock_path lock) w of
        Inl e \<Rightarrow> (Some e, w)
      | Inr w1 \<Rightarrow>
          (let lockfile = FileHandle (lock_path lock)
           in case write_h lockfile (json_dump api (locked_canonical api lock)) w1 of
                Inl e \<Rightarrow> (Some e, close_h lockfile w1)
              | Inr w2 \<Rightarrow> (None, close_h lockfile w2)))"

text \<open>The inner \<^verbatim>\<open>_load\<close>: the loader is handed the open lockfile, that is, its text.\<close>

definition load_inner ::
  "(string \<Rightarrow> error + 'a) \<Rightarrow> ('d, 'v) plugin_lock \<Rightarrow> world \<Rightarrow> error + 'a" where
  "load_inner loader lock w =
     (case read_file (lock_path lock) w of
        Inl e \<Rightarrow> Inl e
      | Inr text \<Rightarrow> loader text)"

definition PluginLock_load ::
  "('d, 'v, 'sp, 'c) plugin_api \<Rightarrow> bool \<Rightarrow> (string \<Rightarrow> error + 'a)
     \<Rightarrow> ('d, 'v) plugin_lock \<Rightarrow> world \<Rightarrow> (error + 'a) \<times> world" where
  "PluginLock_load api create loader lock w =
     (case load_inner loader lock w of
        Inr x \<Rightarrow> (Inr x, w)
      | Inl e \<Rightarrow>
          if e = FileNotFoundError
          then (if create
                then (case PluginLock_save api lock w of
                        (Some e', w1) \<Rightarrow> (Inl e', w1)
                      | (None, w1) \<Rightarrow> (load_inner loader lock w1, w1))
                else (Inl e, w))
          else (Inl e, w))"

text \<open>The default loader, \<^verbatim>\<open>lambda x: StandalonePlugin(**json.load(x))\<close>.\<close>

definition default_loader ::
  "('d, 'v, 'sp, 'c) plugin_api \<Rightarrow> string \<Rightarrow> error + 'sp" where
  "default_loader api text =
     (case json_load api text of
        Inl e \<Rightarrow> Inl e
      | Inr c \<Rightarrow> StandalonePlugin api c)"




text \<open>\<^verbatim>\<open>PluginLockService.save\<close>\<close>

definition PluginLockService_save ::
  "project \<Rightarrow> ('d, 'v, 'sp, 'c) plugin_api \<Rightarrow> project_plugin \<Rightarrow> bool \<Rightarrow> world
     \<Rightarrow> error option \<times> world" where
  "PluginLockService_save pr api plugin exists_ok w =
     (case PluginLock pr api plugin of
        Inl e \<Rightarrow> (Some e, w)
      | Inr plugin_lock \<Rightarrow>
          if path_exists w (lock_path plugin_lock) \<and> \<not> exists_ok
          then (Some (LockfileAlreadyExistsError (lock_path plugin_lock) plugin), w)
          else PluginLock_save api plugin_lock w)"

section \<open>A project and disks to run the services on\<close>

definition demo_project :: project where
  "demo_project =
     \<lparr>job_logs_dir = (\<lambda>state_id joinpaths. [''proj'', ''.meltano'', ''logs'', ''elt'', state_id] @ joinpaths),
      run_dir = (\<lambda>kind. [''proj'', ''.meltano'', ''run'', kind]),
      plugin_lock_path = (\<lambda>t n v. [''proj'', ''plugins'', t, n @ ''--'' @ v @ ''.lock'']),
      makedirs_dirs = (\<lambda>p. [if CHR ''.'' \<in> set (last p) then butlast p else p]),
      slugify = (\<lambda>s. s)\<rparr>"

definition disk_of :: "(path \<times> inode) list \<Rightarrow> world" where
  "disk_of fs = \<lparr>files = fs, dirs = [], unwritable = [], undeletable = [], clock = 100,
                 open_handles = [], error_log = []\<rparr>"

definition job_log :: "string \<Rightarrow> path" where
  "job_log run_id = [''proj'', ''.meltano'', ''logs'', ''elt'', ''job'', run_id, ''elt.log'']"

definition legacy_log :: "string \<Rightarrow> path" where
  "legacy_log run_id = [''proj'', ''.meltano'', ''run'', ''elt'', ''job'', run_id, ''elt.log'']"

definition one_log :: "nat \<Rightarrow> world" where
  "one_log n = disk_of [(job_log ''r1'', \<lparr>content = replicate n (CHR ''x''), st_ctime_ns = 5\<rparr>)]"


definition three_logs :: world where
  "three_logs =
     disk_of [(job_log ''r1'', \<lparr>content = ''first'', st_ctime_ns = 5\<rparr>),
              (job_log ''r2'', \<lparr>content = ''third'', st_ctime_ns = 9\<rparr>),
              (legacy_log ''r0'', \<lparr>content = ''second'', st_ctime_ns = 7\<rparr>),
              ([''proj'', ''.meltano'', ''logs'', ''elt'', ''job'', ''r2'', ''notes.txt''],
                 \<lparr>content = ''note'', st_ctime_ns = 11\<rparr>),
              ([''proj'', ''.meltano'', ''logs'', ''elt'', ''other'', ''r9'', ''elt.log''],
                 \<lparr>content = ''other job'', st_ctime_ns = 12\<rparr>)]"

text \<open>
  The files \<^verbatim>\<open>get_all_logs\<close> is to return, in the order the globs find them: the
  \<^verbatim>\<open>*.log\<close> files under the primary directory, then those under the legacy directory
  when that directory exists.
\<close>

definition candidate_logs :: "project \<Rightarrow> string \<Rightarrow> world \<Rightarrow> (path \<times> inode) list" where
  "candidate_logs pr state_id w =
     glob_logs w (job_logs_dir pr state_id []) @
     (if path_exists (makedirs pr (job_logs_dir pr state_id []) w)
           (run_dir pr ''elt'' @ [slugify pr state_id])
      then glob_logs w (run_dir pr ''elt'' @ [slugify pr state_id]) else [])"

text \<open>Two directories are nested when they are the same or one lies inside the other.\<close>

definition nested :: "path \<Rightarrow> path \<Rightarrow> bool" where
  "nested d e = (d = e \<or> is_under d e \<or> is_under e d)"

text \<open>A disk on which the operating system refuses to unlink the given paths.\<close>

definition protect :: "path list \<Rightarrow> world \<Rightarrow> world" where
  "protect ps w = w\<lparr>undeletable := ps\<rparr>"

text \<open>A disk on which the given paths cannot be opened for writing.\<close>

definition read_only :: "path list \<Rightarrow> world \<Rightarrow> world" where
  "read_only ps w = w\<lparr>unwritable := ps\<rparr>"

text \<open>A caller's block that writes one line to the file it is handed.\<close>

definition write_hello :: "handle \<Rightarrow> world \<Rightarrow> error option \<times> world" where
  "write_hello h w = (case write_h h ''hello'' w of Inl e \<Rightarrow> (Some e, w) | Inr w' \<Rightarrow> (None, w'))"

text \<open>A path can be opened for writing when the operating system allows it and no directory is in the way.\<close>

definition writable :: "world \<Rightarrow> path \<Rightarrow> bool" where
  "writable w p = (p \<notin> set (unwritable w) \<and> \<not> is_directory w p)"

text \<open>The statement sequence \<^verbatim>\<open>lock.save(); lock.load(loader=loader)\<close>.\<close>

definition save_then_load ::
  "('d, 'v, 'sp, 'c) plugin_api \<Rightarrow> (string \<Rightarrow> error + 'a) \<Rightarrow> ('d, 'v) plugin_lock \<Rightarrow> world
     \<Rightarrow> (error + 'a) \<times> world" where
  "save_then_load api loader lock w =
     (case PluginLock_save api lock w of
        (Some e, w1) \<Rightarrow> (Inl e, w1)
      | (None, w1) \<Rightarrow> PluginLock_load api False loader lock w1)"

text \<open>
  Modelled from the spec: \<^verbatim>\<open>StandalonePlugin\<close>, its \<^verbatim>\<open>canonical()\<close> and the JSON codec
  are not part of the module. The spec describes the standalone plugin as a serializable
  object with a canonical mapping, and the lockfile as the JSON text of that mapping. The
  contract taken from it, for a canonical mapping \<open>c\<close>: decoding the JSON text of \<open>c\<close>
  gives \<open>c\<close> back, and the standalone plugin built from \<open>c\<close> has \<open>c\<close> as its canonical
  mapping.
\<close>

definition canonical_round_trip :: "('d, 'v, 'sp, 'c) plugin_api \<Rightarrow> 'c \<Rightarrow> bool" where
  "canonical_round_trip api c =
     (json_load api (json_dump api c) = Inr c \<and>
      (case StandalonePlugin api c of Inr sp \<Rightarrow> canonical api sp = c | Inl e \<Rightarrow> False))"

text \<open>
  A plugin model to run the lock service on: a definition is its name, every definition
  is an extractor with the variants \<^verbatim>\<open>meltano\<close> and \<^verbatim>\<open>singer-io\<close>, a standalone plugin
  and its canonical mapping are the text between the braces of the lockfile.
\<close>

definition demo_api :: "(string, string, string, string) plugin_api" where
  "demo_api =
     \<lparr>plugin_definition = plugin_name,
      definition_type = (\<lambda>d. ''extractors''),
      definition_name = (\<lambda>d. d),
      find_variant = (\<lambda>d n. if n = ''meltano'' \<or> n = ''singer-io'' then Inr n
                              else Inl (Raised ''VariantNotFoundError'')),
      variant_name = (\<lambda>v. v),
      from_variant = (\<lambda>v d. ''name: '' @ d @ '', variant: '' @ v),
      canonical = (\<lambda>sp. sp),
      json_dump = (\<lambda>c. ''{'' @ c @ ''}''),
      json_load = (\<lambda>s. if 2 \<le> length s \<and> hd s = CHR ''{'' \<and> last s = CHR ''}''
                        then Inr (butlast (tl s)) else Inl (Raised ''JSONDecodeError'')),
      StandalonePlugin = Inr\<rparr>"

definition tap_gitlab :: project_plugin where
  "tap_gitlab = \<lparr>plugin_type = ''extractors'', plugin_name = ''tap-gitlab'', plugin_variant = ''meltano''\<rparr>"

definition tap_gitlab_lock :: "(string, string) plugin_lock" where
  "tap_gitlab_lock =
     \<lparr>lock_definition = ''tap-gitlab'', lock_variant = ''meltano'',
      lock_path = [''proj'', ''plugins'', ''extractors'', ''tap-gitlab--meltano.lock'']\<rparr>"

text \<open>A disk that holds a lockfile for that plugin, with the given bytes.\<close>

definition lockfile_disk :: "string \<Rightarrow> world" where
  "lockfile_disk bytes =
     disk_of [(lock_path tap_gitlab_lock, \<lparr>content = bytes, st_ctime_ns = 1\<rparr>)]"

text \<open>A loader that cannot find a file of its own.\<close>

definition failing_loader :: "string \<Rightarrow> error + string" where
  "failing_loader text = Inl FileNotFoundError"


section \<open>Properties of the job logging service\<close>

lemma files_makedirs: "files (makedirs pr p w) = files w"
  by (simp add: makedirs_def)

lemma lookup_file_makedirs: "lookup_file (makedirs pr p w) q = lookup_file w q"
  by (simp add: lookup_file_def makedirs_def)

lemma glob_logs_makedirs: "glob_logs (makedirs pr p w) d = glob_logs w d"
  by (simp add: glob_logs_def makedirs_def)

lemma snd_logs_dirs: "snd (logs_dirs pr state_id js w) = makedirs pr (job_logs_dir pr state_id js) w"
  by (simp add: logs_dirs_def logs_dir_def Let_def split: option.split)

lemma fst_logs_dirs:
  "fst (logs_dirs pr state_id js w) =
     job_logs_dir pr state_id js #
       (if path_exists (makedirs pr (job_logs_dir pr state_id js) w) (run_dir pr ''elt'' @ slugify pr state_id # js)
        then [run_dir pr ''elt'' @ slugify pr state_id # js] else [])"
  by (simp add: logs_dirs_def logs_dir_def legacy_logs_dir_def Let_def)

lemma snd_found_logs: "snd (found_logs pr state_id w) = makedirs pr (job_logs_dir pr state_id []) w"
  using snd_logs_dirs [of pr state_id "[]" w]
  by (simp add: found_logs_def Let_def split_beta)

lemma snd_get_all_logs: "snd (get_all_logs pr state_id w) = makedirs pr (job_logs_dir pr state_id []) w"
  by (simp add: get_all_logs_def Let_def split_beta snd_found_logs)

lemma fst_get_all_logs: "fst (get_all_logs pr state_id w) = map fst (fst (found_logs pr state_id w))"
  by (simp add: get_all_logs_def Let_def split_beta)

lemma fst_found_logs:
  "fst (found_logs pr state_id w) =
     sort_key (\<lambda>(q, f). - st_ctime_ns f)
       (glob_logs w (job_logs_dir pr state_id []) @
        (if path_exists (makedirs pr (job_logs_dir pr state_id []) w) (run_dir pr ''elt'' @ [slugify pr state_id])
         then glob_logs w (run_dir pr ''elt'' @ [slugify pr state_id]) else []))"
  using snd_logs_dirs [of pr state_id "[]" w] fst_logs_dirs [of pr state_id "[]" w]
  by (simp add: found_logs_def Let_def split_beta glob_logs_makedirs)

lemma glob_logs_subset: "set (glob_logs w d) \<subseteq> set (files w)"
  by (auto simp: glob_logs_def)

lemma found_logs_subset: "set (fst (found_logs pr state_id w)) \<subseteq> set (files w)"
  using glob_logs_subset by (auto simp: fst_found_logs)

lemma map_of_in_set: "(q, f) \<in> set fs \<Longrightarrow> \<exists>g. map_of fs q = Some g"
  by (induction fs) auto

lemma latest_log_on_disk:
  assumes "fst (get_all_logs pr state_id w) = latest # rest"
  shows "\<exists>f. lookup_file w latest = Some f"
proof -
  from assms obtain e es where "fst (found_logs pr state_id w) = e # es" "fst e = latest"
    by (auto simp: fst_get_all_logs)
  then have "(latest, snd e) \<in> set (files w)"
    using found_logs_subset [of pr state_id w] by (cases e) auto
  then show ?thesis
    unfolding lookup_file_def by (rule map_of_in_set)
qed

lemma get_latest_log_env_Cons:
  assumes "fst (get_all_logs pr state_id w) = latest # rest"
  shows "fst (get_latest_log_env env1 env2 pr state_id w) =
     (case stat_size latest (env1 (snd (get_all_logs pr state_id w))) of
        Inl e \<Rightarrow> Inl (missing_handler e)
      | Inr sz \<Rightarrow>
          if sz > MAX_FILE_SIZE then Inl SizeThresholdJobLogException
          else case read_file latest (env2 (env1 (snd (get_all_logs pr state_id w)))) of
                 Inl e \<Rightarrow> Inl (missing_handler e)
               | Inr text \<Rightarrow> Inr text)"
  using assms
  by (simp add: get_latest_log_env_def Let_def split_beta split: sum.split list.split)


lemma get_downloadable_log_Cons:
  assumes "fst (get_all_logs pr state_id w) = latest # rest"
  shows "fst (get_downloadable_log pr state_id w) = Inr (path_str latest)"
  using assms by (simp add: get_downloadable_log_def Let_def split_beta)


lemma get_latest_log_on_disk:
  assumes "fst (get_all_logs pr state_id w) = latest # rest"
    and f: "lookup_file w latest = Some f"
  shows "fst (get_latest_log pr state_id w) =
          (if MAX_FILE_SIZE < length (content f) then Inl SizeThresholdJobLogException
           else Inr (content f))"
proof -
  have stat: "stat_size latest (snd (get_all_logs pr state_id w)) = Inr (length (content f))"
    by (simp add: stat_size_def snd_get_all_logs lookup_file_makedirs f)
  have rd: "read_file latest (snd (get_all_logs pr state_id w)) = Inr (content f)"
    by (simp add: read_file_def snd_get_all_logs lookup_file_makedirs f)
  show ?thesis
    unfolding get_latest_log_def
    by (simp add: get_latest_log_env_Cons [OF assms(1)] stat rd)
qed

text \<open>
  C1. \<^verbatim>\<open>get_latest_log\<close> raises \<^verbatim>\<open>SizeThresholdJobLogException\<close> whenever the most
  recent log file is larger than 2 097 152 bytes, and returns the whole content of a file
  of 2 097 152 bytes or fewer; \<^verbatim>\<open>get_downloadable_log\<close> has no size limit: it returns
  the path of the most recent log whatever its size.
\<close>

theorem get_latest_log_size_threshold:
  assumes "fst (get_all_logs pr state_id w) = latest # rest"
  shows "\<exists>f. lookup_file w latest = Some f \<and>
           (2097152 < length (content f) \<longrightarrow>
              fst (get_latest_log pr state_id w) = Inl SizeThresholdJobLogException) \<and>
           (length (content f) \<le> 2097152 \<longrightarrow>
              fst (get_latest_log pr state_id w) = Inr (content f)) \<and>
           fst (get_downloadable_log pr state_id w) = Inr (path_str latest)"
proof -
  from latest_log_on_disk [OF assms] obtain f where f: "lookup_file w latest = Some f" ..
  from get_latest_log_on_disk [OF assms f] f get_downloadable_log_Cons [OF assms]
  show ?thesis
    by (auto simp: MAX_FILE_SIZE_def)
qed

lemmas demo_eval =
  get_all_logs_def found_logs_def logs_dirs_def logs_dir_def legacy_logs_dir_def
  makedirs_def demo_project_def one_log_def disk_of_def glob_logs_def is_under_def fnmatch_log_def
  path_exists_def lookup_file_def is_directory_def Let_def job_log_def legacy_log_def

theorem get_latest_log_size_threshold_witness:
  "fst (get_latest_log demo_project ''job'' (one_log 2097152)) =
     Inr (replicate 2097152 (CHR ''x'')) \<and>
   fst (get_latest_log demo_project ''job'' (one_log 2097153)) =
     Inl SizeThresholdJobLogException \<and>
   fst (get_downloadable_log demo_project ''job'' (one_log 2097153)) =
     Inr ''/proj/.meltano/logs/elt/job/r1/elt.log''"
proof -
  have logs: "fst (get_all_logs demo_project ''job'' (one_log n)) = [job_log ''r1'']" for n
    by (simp add: demo_eval)
  have disk: "lookup_file (one_log n) (job_log ''r1'') =
                Some \<lparr>content = replicate n (CHR ''x''), st_ctime_ns = 5\<rparr>" for n
    by (simp add: lookup_file_def one_log_def disk_of_def)
  show ?thesis
    using get_latest_log_size_threshold [OF logs [of 2097152]]
          get_latest_log_size_threshold [OF logs [of 2097153]]
    by (auto simp: disk [unfolded job_log_def] path_str_def job_log_def)
qed

lemma get_all_logs_no_files:
  assumes "glob_logs w (job_logs_dir pr state_id []) = []"
    and "glob_logs w (run_dir pr ''elt'' @ [slugify pr state_id]) = []"
  shows "fst (get_all_logs pr state_id w) = []"
  using assms by (simp add: fst_get_all_logs fst_found_logs)


lemma read_file_removed: "\<not> path_exists w p \<Longrightarrow> read_file p w = Inl FileNotFoundError"
  by (simp add: read_file_def path_exists_def split: option.split)






lemma found_logs_candidates:
  "fst (found_logs pr state_id w) =
     sort_key (\<lambda>x. - st_ctime_ns (snd x)) (candidate_logs pr state_id w)"
  by (simp add: fst_found_logs candidate_logs_def case_prod_unfold)






lemma unlink_ok:
  assumes "p \<in> fst ` set (files w)" and "p \<notin> set (undeletable w)"
  shows "unlink p w = Inr (w\<lparr>files := filter (\<lambda>(q, g). q \<noteq> p) (files w), dirs := ancestors p @ dirs w\<rparr>)"
proof -
  from assms(1) obtain f where "lookup_file w p = Some f"
    unfolding lookup_file_def using map_of_in_set by fastforce
  with assms(2) show ?thesis
    by (simp add: unlink_def)
qed

lemma unlink_denied:
  assumes "p \<in> fst ` set (files w)" and "p \<in> set (undeletable w)"
  shows "unlink p w = Inl OSError"
proof -
  from assms(1) obtain f where "lookup_file w p = Some f"
    unfolding lookup_file_def using map_of_in_set by fastforce
  with assms(2) show ?thesis
    by (simp add: unlink_def)
qed

lemma unlink_each_all:
  assumes "distinct ps"
    and "set ps \<subseteq> fst ` set (files w)"
    and "set ps \<inter> set (undeletable w) = {}"
  shows "fst (unlink_each ps w) = None \<and>
         files (snd (unlink_each ps w)) = filter (\<lambda>(q, g). q \<notin> set ps) (files w) \<and>
         undeletable (snd (unlink_each ps w)) = undeletable w"
  using assms
proof (induction ps arbitrary: w)
  case Nil
  then show ?case by simp
next
  case (Cons p ps)
  let ?w' = "w\<lparr>files := filter (\<lambda>(q, g). q \<noteq> p) (files w), dirs := ancestors p @ dirs w\<rparr>"
  have u: "unlink p w = Inr ?w'"
    using Cons.prems by (intro unlink_ok) auto
  have "distinct ps"
    using Cons.prems by simp
  moreover have "set ps \<subseteq> fst ` set (files ?w')"
    using Cons.prems by force
  moreover have "set ps \<inter> set (undeletable ?w') = {}"
    using Cons.prems by auto
  ultimately have ih: "fst (unlink_each ps ?w') = None \<and>
         files (snd (unlink_each ps ?w')) = filter (\<lambda>(q, g). q \<notin> set ps) (files ?w') \<and>
         undeletable (snd (unlink_each ps ?w')) = undeletable ?w'"
    by (rule Cons.IH)
  have "filter (\<lambda>(q, g). q \<notin> set ps) (filter (\<lambda>(q, g). q \<noteq> p) (files w)) =
        filter (\<lambda>(q, g). q \<notin> set (p # ps)) (files w)"
    by (auto simp: case_prod_unfold intro: filter_cong)
  with ih show ?case
    by (simp add: u)
qed

lemma unlink_each_append:
  "unlink_each (xs @ ys) w =
     (case unlink_each xs w of (None, w') \<Rightarrow> unlink_each ys w' | (Some e, w') \<Rightarrow> (Some e, w'))"
  by (induction xs arbitrary: w) (auto split: sum.split)

lemma unlink_each_stops:
  assumes "distinct (done @ [p])"
    and "set (done @ [p]) \<subseteq> fst ` set (files w)"
    and "set done \<inter> set (undeletable w) = {}"
    and "p \<in> set (undeletable w)"
  shows "fst (unlink_each (done @ p # todo) w) = Some OSError \<and>
         files (snd (unlink_each (done @ p # todo) w)) = filter (\<lambda>(q, g). q \<notin> set done) (files w)"
proof -
  have a: "fst (unlink_each done w) = None \<and>
         files (snd (unlink_each done w)) = filter (\<lambda>(q, g). q \<notin> set done) (files w) \<and>
         undeletable (snd (unlink_each done w)) = undeletable w"
    using assms by (intro unlink_each_all) auto
  obtain w' where w': "unlink_each done w = (None, w')"
    using a by (cases "unlink_each done w") auto
  have "p \<in> fst ` set (files w')"
    using a w' assms(1,2) by force
  moreover have "p \<in> set (undeletable w')"
    using a w' assms(4) by simp
  ultimately have "unlink p w' = Inl OSError"
    by (rule unlink_denied)
  then show ?thesis
    using a w' by (simp add: unlink_each_append)
qed

lemma is_under_both:
  assumes "is_under d q" and "is_under e q"
  shows "d = e \<or> is_under d e \<or> is_under e d"
proof (cases "length d \<le> length e")
  case True
  have "take (length d) e = take (length d) (take (length e) q)"
    using assms(2) by (simp add: is_under_def)
  also have "\<dots> = take (length d) q"
    using True by (simp add: min_absorb1)
  finally have t: "take (length d) e = d"
    using assms(1) by (simp add: is_under_def)
  show ?thesis
  proof (cases "length d = length e")
    case eq: True
    from t have "take (length e) e = d"
      by (simp only: eq)
    then show ?thesis
      by simp
  next
    case False
    with True have "length d < length e"
      by simp
    with t have "is_under d e"
      unfolding is_under_def by (rule conjI [rotated])
    then show ?thesis
      by blast
  qed
next
  case False
  have "take (length e) d = take (length e) (take (length d) q)"
    using assms(1) by (simp add: is_under_def)
  also have "\<dots> = take (length e) q"
    using False by (simp add: min_absorb1)
  finally have t: "take (length e) d = e"
    using assms(2) by (simp add: is_under_def)
  from False have "length e < length d"
    by simp
  with t have "is_under e d"
    unfolding is_under_def by (rule conjI [rotated])
  then show ?thesis
    by blast
qed

lemma glob_logs_under: "(q, f) \<in> set (glob_logs w d) \<Longrightarrow> is_under d q"
  by (simp add: glob_logs_def)

lemma glob_logs_absent: "\<not> path_exists w d \<Longrightarrow> glob_logs w d = []"
  by (auto simp: path_exists_def is_directory_def glob_logs_def list_ex_iff filter_empty_conv)

lemma delete_all_logs_unfold:
  "delete_all_logs pr state_id w =
     unlink_each (fst (get_all_logs pr state_id w)) (snd (get_all_logs pr state_id w))"
  by (simp add: delete_all_logs_def split_beta)

lemma get_all_logs_on_disk:
  "set (fst (get_all_logs pr state_id w)) \<subseteq> fst ` set (files (snd (get_all_logs pr state_id w)))"
  using found_logs_subset [of pr state_id w]
  by (auto simp: fst_get_all_logs snd_get_all_logs files_makedirs)

lemma set_get_all_logs:
  "set (fst (get_all_logs pr state_id w)) = fst ` set (candidate_logs pr state_id w)"
  by (simp add: fst_get_all_logs found_logs_candidates)

lemma distinct_glob_logs:
  "distinct (map fst (files w)) \<Longrightarrow> distinct (map fst (glob_logs w d))"
  unfolding glob_logs_def by (rule distinct_map_filter)

lemma distinct_candidate_logs:
  assumes "distinct (map fst (files w))"
    and "\<not> nested (job_logs_dir pr state_id []) (run_dir pr ''elt'' @ [slugify pr state_id])"
  shows "distinct (map fst (candidate_logs pr state_id w))"
proof -
  have "fst ` set (glob_logs w (job_logs_dir pr state_id [])) \<inter>
        fst ` set (glob_logs w (run_dir pr ''elt'' @ [slugify pr state_id])) = {}"
  proof (rule ccontr)
    assume "\<not> ?thesis"
    then obtain q f g where "(q, f) \<in> set (glob_logs w (job_logs_dir pr state_id []))"
      and "(q, g) \<in> set (glob_logs w (run_dir pr ''elt'' @ [slugify pr state_id]))"
      by fastforce
    then have "is_under (job_logs_dir pr state_id []) q"
      and "is_under (run_dir pr ''elt'' @ [slugify pr state_id]) q"
      by (auto dest: glob_logs_under)
    then have "nested (job_logs_dir pr state_id []) (run_dir pr ''elt'' @ [slugify pr state_id])"
      unfolding nested_def by (rule is_under_both)
    with assms(2) show False ..
  qed
  then show ?thesis
    using assms(1) by (simp add: candidate_logs_def distinct_glob_logs)
qed

lemma distinct_get_all_logs:
  assumes "distinct (map fst (files w))"
    and "\<not> nested (job_logs_dir pr state_id []) (run_dir pr ''elt'' @ [slugify pr state_id])"
  shows "distinct (fst (get_all_logs pr state_id w))"
proof -
  have "mset (fst (get_all_logs pr state_id w)) = mset (map fst (candidate_logs pr state_id w))"
    by (simp add: fst_get_all_logs found_logs_candidates)
  then show ?thesis
    using distinct_candidate_logs [OF assms] by (metis mset_eq_imp_distinct_iff)
qed

lemma glob_logs_after:
  assumes "files w' = filter (\<lambda>(q, g). q \<notin> S) (files w)"
    and "fst ` set (glob_logs w d) \<subseteq> S"
  shows "glob_logs w' d = []"
  using assms by (force simp: glob_logs_def filter_empty_conv)

lemma no_logs_left:
  assumes "files w' = filter (\<lambda>(q, g). q \<notin> set (fst (get_all_logs pr state_id w))) (files w)"
  shows "glob_logs w' (job_logs_dir pr state_id []) = [] \<and>
         glob_logs w' (run_dir pr ''elt'' @ [slugify pr state_id]) = []"
proof
  show "glob_logs w' (job_logs_dir pr state_id []) = []"
    using assms by (rule glob_logs_after) (auto simp: set_get_all_logs candidate_logs_def)
  show "glob_logs w' (run_dir pr ''elt'' @ [slugify pr state_id]) = []"
  proof (cases "path_exists (makedirs pr (job_logs_dir pr state_id []) w)
                  (run_dir pr ''elt'' @ [slugify pr state_id])")
    case True
    show ?thesis
      using assms by (rule glob_logs_after) (auto simp: set_get_all_logs candidate_logs_def True)
  next
    case False
    then have "glob_logs (makedirs pr (job_logs_dir pr state_id []) w)
                 (run_dir pr ''elt'' @ [slugify pr state_id]) = []"
      by (rule glob_logs_absent)
    then have "glob_logs w (run_dir pr ''elt'' @ [slugify pr state_id]) = []"
      by (simp add: glob_logs_makedirs)
    with assms show ?thesis
      by (intro glob_logs_after [of w' _ w]) auto
  qed
qed

text \<open>
  C9. \<^verbatim>\<open>delete_all_logs\<close> unlinks every file \<^verbatim>\<open>get_all_logs\<close> returns, in the primary
  and in the legacy directory, and nothing else, so that a second \<^verbatim>\<open>get_all_logs\<close>
  returns the empty list; with no file to delete it raises nothing; when an \<^verbatim>\<open>unlink\<close>
  is refused, the error reaches the caller and the files unlinked before it stay deleted.
\<close>

theorem delete_all_logs_removes_all:
  "(distinct (map fst (files w)) \<and>
    \<not> nested (job_logs_dir pr state_id []) (run_dir pr ''elt'' @ [slugify pr state_id]) \<and>
    set (fst (get_all_logs pr state_id w)) \<inter> set (undeletable w) = {} \<longrightarrow>
      fst (delete_all_logs pr state_id w) = None \<and>
      files (snd (delete_all_logs pr state_id w)) =
        filter (\<lambda>(q, g). q \<notin> set (fst (get_all_logs pr state_id w))) (files w) \<and>
      glob_logs (snd (delete_all_logs pr state_id w)) (job_logs_dir pr state_id []) = [] \<and>
      glob_logs (snd (delete_all_logs pr state_id w)) (run_dir pr ''elt'' @ [slugify pr state_id]) = [] \<and>
      fst (get_all_logs pr state_id (snd (delete_all_logs pr state_id w))) = []) \<and>
   (fst (get_all_logs pr state_id w) = [] \<longrightarrow> fst (delete_all_logs pr state_id w) = None) \<and>
   (distinct (map fst (files w)) \<and>
    \<not> nested (job_logs_dir pr state_id []) (run_dir pr ''elt'' @ [slugify pr state_id]) \<and>
    fst (get_all_logs pr state_id w) = deleted @ p # todo \<and>
    set deleted \<inter> set (undeletable w) = {} \<and> p \<in> set (undeletable w) \<longrightarrow>
      fst (delete_all_logs pr state_id w) = Some OSError \<and>
      files (snd (delete_all_logs pr state_id w)) = filter (\<lambda>(q, g). q \<notin> set deleted) (files w))"
proof (intro conjI impI)
  let ?logs = "fst (get_all_logs pr state_id w)"
  let ?w1 = "snd (get_all_logs pr state_id w)"
  assume a: "distinct (map fst (files w)) \<and>
    \<not> nested (job_logs_dir pr state_id []) (run_dir pr ''elt'' @ [slugify pr state_id]) \<and>
    set ?logs \<inter> set (undeletable w) = {}"
  then have "distinct ?logs"
    by (simp add: distinct_get_all_logs)
  moreover have "set ?logs \<subseteq> fst ` set (files ?w1)"
    by (rule get_all_logs_on_disk)
  moreover have "set ?logs \<inter> set (undeletable ?w1) = {}"
    using a by (simp add: snd_get_all_logs makedirs_def)
  ultimately have all: "fst (unlink_each ?logs ?w1) = None \<and>
         files (snd (unlink_each ?logs ?w1)) = filter (\<lambda>(q, g). q \<notin> set ?logs) (files ?w1) \<and>
         undeletable (snd (unlink_each ?logs ?w1)) = undeletable ?w1"
    by (rule unlink_each_all)
  then show "fst (delete_all_logs pr state_id w) = None"
    by (simp add: delete_all_logs_unfold)
  show after: "files (snd (delete_all_logs pr state_id w)) =
        filter (\<lambda>(q, g). q \<notin> set ?logs) (files w)"
    using all by (simp add: delete_all_logs_unfold snd_get_all_logs files_makedirs)
  from no_logs_left [OF after]
  show "glob_logs (snd (delete_all_logs pr state_id w)) (job_logs_dir pr state_id []) = []"
    and "glob_logs (snd (delete_all_logs pr state_id w)) (run_dir pr ''elt'' @ [slugify pr state_id]) = []"
    by simp_all
  then show "fst (get_all_logs pr state_id (snd (delete_all_logs pr state_id w))) = []"
    by (rule get_all_logs_no_files)
next
  assume "fst (get_all_logs pr state_id w) = []"
  then show "fst (delete_all_logs pr state_id w) = None"
    by (simp add: delete_all_logs_unfold)
next
  let ?w1 = "snd (get_all_logs pr state_id w)"
  assume a: "distinct (map fst (files w)) \<and>
    \<not> nested (job_logs_dir pr state_id []) (run_dir pr ''elt'' @ [slugify pr state_id]) \<and>
    fst (get_all_logs pr state_id w) = deleted @ p # todo \<and>
    set deleted \<inter> set (undeletable w) = {} \<and> p \<in> set (undeletable w)"
  then have logs: "fst (get_all_logs pr state_id w) = deleted @ p # todo"
    by simp
  have "distinct (fst (get_all_logs pr state_id w))"
    by (rule distinct_get_all_logs) (use a in blast)+
  then have "distinct (deleted @ [p])"
    by (simp add: logs)
  moreover have "set (deleted @ [p]) \<subseteq> fst ` set (files ?w1)"
    using get_all_logs_on_disk [of pr state_id w] by (simp add: logs)
  moreover have "set deleted \<inter> set (undeletable ?w1) = {}"
    using a by (simp add: snd_get_all_logs makedirs_def)
  moreover have "p \<in> set (undeletable ?w1)"
    using a by (simp add: snd_get_all_logs makedirs_def)
  ultimately have "fst (unlink_each (deleted @ p # todo) ?w1) = Some OSError \<and>
         files (snd (unlink_each (deleted @ p # todo) ?w1)) =
           filter (\<lambda>(q, g). q \<notin> set deleted) (files ?w1)"
    by (rule unlink_each_stops)
  then show "fst (delete_all_logs pr state_id w) = Some OSError"
    and "files (snd (delete_all_logs pr state_id w)) = filter (\<lambda>(q, g). q \<notin> set deleted) (files w)"
    by (simp_all add: delete_all_logs_unfold logs snd_get_all_logs files_makedirs)
qed

theorem delete_all_logs_removes_all_witness:
  "fst (delete_all_logs demo_project ''job'' three_logs) = None \<and>
   map fst (files (snd (delete_all_logs demo_project ''job'' three_logs))) =
     [ [''proj'', ''.meltano'', ''logs'', ''elt'', ''job'', ''r2'', ''notes.txt''],
      [''proj'', ''.meltano'', ''logs'', ''elt'', ''other'', ''r9'', ''elt.log'']] \<and>
   fst (get_all_logs demo_project ''job'' (snd (delete_all_logs demo_project ''job'' three_logs))) = [] \<and>
   fst (delete_all_logs demo_project ''job'' (disk_of [])) = None \<and>
   fst (delete_all_logs demo_project ''job'' (protect [legacy_log ''r0''] three_logs)) = Some OSError \<and>
   map fst (files (snd (delete_all_logs demo_project ''job'' (protect [legacy_log ''r0''] three_logs)))) =
     [job_log ''r1'', legacy_log ''r0'',
      [''proj'', ''.meltano'', ''logs'', ''elt'', ''job'', ''r2'', ''notes.txt''],
      [''proj'', ''.meltano'', ''logs'', ''elt'', ''other'', ''r9'', ''elt.log'']]"
proof -
  have logs: "fst (get_all_logs demo_project ''job'' three_logs) =
      [job_log ''r2'', legacy_log ''r0'', job_log ''r1'']"
    by (simp add: three_logs_def demo_eval)
  have logs': "fst (get_all_logs demo_project ''job'' (protect [legacy_log ''r0''] three_logs)) =
      [] @ job_log ''r2'' # legacy_log ''r0'' # [job_log ''r1'']"
    by (simp add: three_logs_def protect_def demo_eval)
  have none: "fst (get_all_logs demo_project ''job'' (disk_of [])) = []"
    by (simp add: demo_eval)
  have sep: "\<not> nested (job_logs_dir demo_project ''job'' [])
                (run_dir demo_project ''elt'' @ [slugify demo_project ''job''])"
    by (simp add: nested_def is_under_def demo_project_def)
  have dist: "distinct (map fst (files three_logs))"
    "distinct (map fst (files (protect [legacy_log ''r0''] three_logs)))"
    by (simp_all add: three_logs_def protect_def disk_of_def job_log_def legacy_log_def)
  have a: "fst (delete_all_logs demo_project ''job'' three_logs) = None \<and>
      files (snd (delete_all_logs demo_project ''job'' three_logs)) =
        filter (\<lambda>(q, g). q \<notin> set [job_log ''r2'', legacy_log ''r0'', job_log ''r1'']) (files three_logs) \<and>
      fst (get_all_logs demo_project ''job'' (snd (delete_all_logs demo_project ''job'' three_logs))) = []"
    using delete_all_logs_removes_all [of three_logs demo_project "''job''" "[]" "[]" "[]"]
    by (simp add: sep dist logs) (simp add: three_logs_def disk_of_def)
  have b: "fst (delete_all_logs demo_project ''job'' (disk_of [])) = None"
    using delete_all_logs_removes_all [of "disk_of []" demo_project "''job''" "[]" "[]" "[]"]
    by (simp add: none)
  have c: "fst (delete_all_logs demo_project ''job'' (protect [legacy_log ''r0''] three_logs)) = Some OSError \<and>
      files (snd (delete_all_logs demo_project ''job'' (protect [legacy_log ''r0''] three_logs))) =
        filter (\<lambda>(q, g). q \<notin> set [job_log ''r2'']) (files (protect [legacy_log ''r0''] three_logs))"
    using delete_all_logs_removes_all [of "protect [legacy_log ''r0''] three_logs" demo_project "''job''"
        "[job_log ''r2'']" "legacy_log ''r0''" "[job_log ''r1'']"]
    by (simp add: sep dist logs') (simp add: protect_def job_log_def legacy_log_def)
  show ?thesis
    using a b c
    by (simp add: three_logs_def protect_def disk_of_def job_log_def legacy_log_def)
qed

lemma open_handles_makedirs: "open_handles (makedirs pr p w) = open_handles w"
  by (simp add: makedirs_def)

lemma open_w_handles: "open_w p w = Inr w' \<Longrightarrow> open_handles w' = FileHandle p # open_handles w"
  by (auto simp: open_w_def split: if_splits)

lemma write_devnull: "DevNull \<in> set (open_handles v) \<Longrightarrow> write_h DevNull s v = Inr v"
  by (simp add: write_h_def)

lemma create_log_open_failed:
  assumes "open_w (fst (generate_log_name pr state_id run_id file_name w))
             (snd (generate_log_name pr state_id run_id file_name w)) = Inl OSError"
  shows "create_log pr state_id run_id file_name body w =
     (let w2 = open_devnull
                 (logging_error (open_failed_message (fst (generate_log_name pr state_id run_id file_name w)))
                    (snd (generate_log_name pr state_id run_id file_name w)))
      in (fst (body DevNull w2), close_h DevNull (snd (body DevNull w2))))"
  using assms by (simp add: create_log_def split_beta Let_def is_OSError_def)

lemma create_log_releases:
  assumes body: "\<And>h v. open_handles (snd (body h v)) = open_handles v"
  shows "open_handles (snd (create_log pr state_id run_id file_name body w)) = open_handles w"
proof -
  obtain p w1 where g: "generate_log_name pr state_id run_id file_name w = (p, w1)"
    by (cases "generate_log_name pr state_id run_id file_name w")
  then have h1: "open_handles w1 = open_handles w"
    by (auto simp: generate_log_name_def logs_dir_def Let_def open_handles_makedirs)
  show ?thesis
  proof (cases "open_w p w1")
    case (Inl e)
    then have "e = OSError"
      by (auto simp: open_w_def split: if_splits)
    with Inl g h1 body show ?thesis
      by (simp add: create_log_def is_OSError_def Let_def split_beta close_h_def open_devnull_def
          logging_error_def)
  next
    case (Inr w2)
    then have h2: "open_handles w2 = FileHandle p # open_handles w"
      using h1 by (simp add: open_w_handles)
    obtain r w3 where b: "body (FileHandle p) w2 = (r, w3)"
      by (cases "body (FileHandle p) w2")
    then have h3: "open_handles w3 = FileHandle p # open_handles w"
      using body [of "FileHandle p" w2] h2 by simp
    show ?thesis
      using Inr g b h3
      by (cases r)
        (simp_all add: create_log_def Let_def close_h_def open_devnull_def logging_error_def)
  qed
qed

text \<open>
  C4. When the generated log path cannot be opened for writing, \<^verbatim>\<open>create_log\<close> does not
  pass the \<^verbatim>\<open>OSError\<close> on: it logs an error and yields the null device, so that the
  \<^verbatim>\<open>with\<close> statement ends as the caller's block does; a write through the yielded
  handle succeeds and is discarded. Whether the open succeeds or not, and whether the
  block raises or not, the handle table is afterwards what it was before.
\<close>

theorem create_log_degrades_to_devnull:
  "(open_w (fst (generate_log_name pr state_id run_id file_name w))
      (snd (generate_log_name pr state_id run_id file_name w)) = Inl OSError \<longrightarrow>
      (let log_file_name = fst (generate_log_name pr state_id run_id file_name w);
           w1 = snd (generate_log_name pr state_id run_id file_name w);
           w2 = open_devnull (logging_error (open_failed_message log_file_name) w1)
       in create_log pr state_id run_id file_name body w =
            (fst (body DevNull w2), close_h DevNull (snd (body DevNull w2))) \<and>
          error_log w2 = error_log w1 @ [open_failed_message log_file_name] \<and>
          files w2 = files w \<and>
          DevNull \<in> set (open_handles w2))) \<and>
   (DevNull \<in> set (open_handles v) \<longrightarrow> write_h DevNull s v = Inr v) \<and>
   ((\<forall>h v. open_handles (snd (body h v)) = open_handles v) \<longrightarrow>
      open_handles (snd (create_log pr state_id run_id file_name body w)) = open_handles w)"
proof (intro conjI impI)
  assume "open_w (fst (generate_log_name pr state_id run_id file_name w))
      (snd (generate_log_name pr state_id run_id file_name w)) = Inl OSError"
  from create_log_open_failed [OF this, of body]
  show "let log_file_name = fst (generate_log_name pr state_id run_id file_name w);
           w1 = snd (generate_log_name pr state_id run_id file_name w);
           w2 = open_devnull (logging_error (open_failed_message log_file_name) w1)
       in create_log pr state_id run_id file_name body w =
            (fst (body DevNull w2), close_h DevNull (snd (body DevNull w2))) \<and>
          error_log w2 = error_log w1 @ [open_failed_message log_file_name] \<and>
          files w2 = files w \<and>
          DevNull \<in> set (open_handles w2)"
    by (simp add: Let_def open_devnull_def logging_error_def generate_log_name_def logs_dir_def
        files_makedirs)
next
  assume "DevNull \<in> set (open_handles v)"
  then show "write_h DevNull s v = Inr v"
    by (rule write_devnull)
next
  assume "\<forall>h v. open_handles (snd (body h v)) = open_handles v"
  then show "open_handles (snd (create_log pr state_id run_id file_name body w)) = open_handles w"
    by (intro create_log_releases) simp
qed

theorem create_log_degrades_to_devnull_witness:
  "create_log demo_project ''job'' ''r1'' ''elt.log'' write_hello (read_only [job_log ''r1''] (disk_of [])) =
     (None, (read_only [job_log ''r1''] (disk_of []))
              \<lparr>dirs := [ [''proj'', ''.meltano'', ''logs'', ''elt'', ''job'', ''r1''] ],
               error_log := [open_failed_message (job_log ''r1'')]\<rparr>) \<and>
   open_handles (snd (create_log demo_project ''job'' ''r1'' ''elt.log'' write_hello (disk_of []))) = []"
proof -
  let ?W = "read_only [job_log ''r1''] (disk_of [])"
  have keeps: "\<forall>h v. open_handles (snd (write_hello h v)) = open_handles v"
    by (auto simp: write_hello_def write_h_def split: handle.split)
  have g: "generate_log_name demo_project ''job'' ''r1'' ''elt.log'' ?W =
      (job_log ''r1'', ?W\<lparr>dirs := [ [''proj'', ''.meltano'', ''logs'', ''elt'', ''job'', ''r1''] ]\<rparr>)"
    by (simp add: generate_log_name_def read_only_def demo_eval)
  have fail: "open_w (fst (generate_log_name demo_project ''job'' ''r1'' ''elt.log'' ?W))
      (snd (generate_log_name demo_project ''job'' ''r1'' ''elt.log'' ?W)) = Inl OSError"
    unfolding g by (simp add: open_w_def read_only_def)
  have "create_log demo_project ''job'' ''r1'' ''elt.log'' write_hello ?W =
     (None, ?W\<lparr>dirs := [ [''proj'', ''.meltano'', ''logs'', ''elt'', ''job'', ''r1''] ],
               error_log := [open_failed_message (job_log ''r1'')]\<rparr>)"
    using create_log_degrades_to_devnull [of demo_project "''job''" "''r1''" "''elt.log''" ?W write_hello]
      fail
    by (simp add: g Let_def open_devnull_def logging_error_def write_hello_def write_h_def close_h_def)
      (simp add: read_only_def disk_of_def)
  moreover have "open_handles (snd (create_log demo_project ''job'' ''r1'' ''elt.log'' write_hello (disk_of []))) = []"
    using create_log_degrades_to_devnull [of demo_project "''job''" "''r1''" "''elt.log''"
        "disk_of []" write_hello] keeps
    by (simp add: disk_of_def)
  ultimately show ?thesis
    by simp
qed

section \<open>Properties of the plugin lock service\<close>

lemma map_of_set_content:
  "map_of (set_content p g fs) q =
     (if q = p then map_option (\<lambda>f. f\<lparr>content := g (content f)\<rparr>) (map_of fs q) else map_of fs q)"
  by (induction fs) (auto simp: set_content_def)

lemma open_w_writable:
  assumes "writable w p"
  shows "\<exists>w1. open_w p w = Inr w1 \<and> open_handles w1 = FileHandle p # open_handles w \<and>
           (\<exists>f. lookup_file w1 p = Some f \<and> content f = [])"
proof (cases "lookup_file w p")
  case None
  with assms show ?thesis
    by (simp add: open_w_def writable_def lookup_file_def map_add_def)
next
  case (Some f)
  with assms show ?thesis
    by (simp add: open_w_def writable_def lookup_file_def map_of_set_content)
qed

lemma open_w_refused: "\<not> writable w p \<Longrightarrow> open_w p w = Inl OSError"
  by (auto simp: open_w_def writable_def)

lemma PluginLock_save_refused:
  "\<not> writable w (lock_path lock) \<Longrightarrow> PluginLock_save api lock w = (Some OSError, w)"
  by (simp add: PluginLock_save_def open_w_refused)

lemma PluginLock_save_writes:
  assumes "writable w (lock_path lock)"
  shows "fst (PluginLock_save api lock w) = None \<and>
         read_file (lock_path lock) (snd (PluginLock_save api lock w)) =
           Inr (json_dump api (locked_canonical api lock)) \<and>
         open_handles (snd (PluginLock_save api lock w)) = open_handles w"
proof -
  from open_w_writable [OF assms] obtain w1 f
    where w1: "open_w (lock_path lock) w = Inr w1"
      and h1: "open_handles w1 = FileHandle (lock_path lock) # open_handles w"
      and f: "lookup_file w1 (lock_path lock) = Some f" "content f = []"
    by blast
  then show ?thesis
    by (simp add: PluginLock_save_def Let_def write_h_def close_h_def read_file_def lookup_file_def
        map_of_set_content)
qed

lemma PluginLock_save_cases:
  "(fst (PluginLock_save api lock w) = None \<and> writable w (lock_path lock)) \<or>
   (PluginLock_save api lock w = (Some OSError, w) \<and> \<not> writable w (lock_path lock))"
  using PluginLock_save_writes [of w lock api] PluginLock_save_refused [of w lock api]
  by (cases "writable w (lock_path lock)") auto

lemma PluginLock_load_no_create:
  "PluginLock_load api False loader lock w = (load_inner loader lock w, w)"
  by (simp add: PluginLock_load_def split: sum.split)

lemma load_inner_absent:
  "\<not> path_exists w (lock_path lock) \<Longrightarrow> load_inner loader lock w = Inl FileNotFoundError"
  by (simp add: load_inner_def read_file_removed)

lemma PluginLock_load_create_absent:
  assumes "load_inner loader lock w = Inl FileNotFoundError"
  shows "PluginLock_load api True loader lock w =
           (case PluginLock_save api lock w of
              (Some e, w1) \<Rightarrow> (Inl e, w1)
            | (None, w1) \<Rightarrow> (load_inner loader lock w1, w1))"
  using assms by (simp add: PluginLock_load_def)

text \<open>
  C5. Once the lock of the plugin is built, \<^verbatim>\<open>PluginLockService.save\<close> without
  \<^verbatim>\<open>exists_ok\<close> raises \<^verbatim>\<open>LockfileAlreadyExistsError\<close>, carrying the lock path and the
  plugin, whenever something exists at the lock path, and leaves the disk as it was; with
  \<^verbatim>\<open>exists_ok\<close>, or with nothing at the path, it does what \<^verbatim>\<open>PluginLock.save\<close> does,
  which at a writable path replaces whatever the file held by the JSON text of the
  canonical mapping.
\<close>

theorem PluginLockService_save_exists_policy:
  assumes "PluginLock pr api plugin = Inr lock"
  shows "(path_exists w (lock_path lock) \<longrightarrow>
            PluginLockService_save pr api plugin False w =
              (Some (LockfileAlreadyExistsError (lock_path lock) plugin), w)) \<and>
         (exists_ok \<or> \<not> path_exists w (lock_path lock) \<longrightarrow>
            PluginLockService_save pr api plugin exists_ok w = PluginLock_save api lock w) \<and>
         (writable w (lock_path lock) \<longrightarrow>
            fst (PluginLock_save api lock w) = None \<and>
            read_file (lock_path lock) (snd (PluginLock_save api lock w)) =
              Inr (json_dump api (locked_canonical api lock)))"
  using assms PluginLock_save_writes [of w lock api]
  by (auto simp: PluginLockService_save_def)

lemmas lock_eval =
  PluginLock_def PluginLock_save_def PluginLock_load_def PluginLockService_save_def load_inner_def
  default_loader_def locked_canonical_def demo_api_def tap_gitlab_def tap_gitlab_lock_def
  lockfile_disk_def disk_of_def demo_project_def open_w_def write_h_def close_h_def read_file_def
  lookup_file_def is_directory_def is_under_def path_exists_def set_content_def writable_def Let_def

theorem PluginLockService_save_exists_policy_witness:
  "PluginLockService_save demo_project demo_api tap_gitlab False (lockfile_disk ''edited by hand'') =
     (Some (LockfileAlreadyExistsError (lock_path tap_gitlab_lock) tap_gitlab),
      lockfile_disk ''edited by hand'') \<and>
   fst (PluginLockService_save demo_project demo_api tap_gitlab True (lockfile_disk ''edited by hand'')) = None \<and>
   read_file (lock_path tap_gitlab_lock)
     (snd (PluginLockService_save demo_project demo_api tap_gitlab True (lockfile_disk ''edited by hand''))) =
     Inr ''{name: tap-gitlab, variant: meltano}'' \<and>
   read_file (lock_path tap_gitlab_lock)
     (snd (PluginLockService_save demo_project demo_api tap_gitlab False (disk_of []))) =
     Inr ''{name: tap-gitlab, variant: meltano}''"
proof -
  have lock: "PluginLock demo_project demo_api tap_gitlab = Inr tap_gitlab_lock"
    by (simp add: lock_eval)
  have there: "path_exists (lockfile_disk ''edited by hand'') (lock_path tap_gitlab_lock)"
    by (simp add: lock_eval)
  have absent: "\<not> path_exists (disk_of []) (lock_path tap_gitlab_lock)"
    by (simp add: lock_eval)
  have w: "writable (lockfile_disk ''edited by hand'') (lock_path tap_gitlab_lock)"
    "writable (disk_of []) (lock_path tap_gitlab_lock)"
    by (simp_all add: lock_eval)
  have dump: "json_dump demo_api (locked_canonical demo_api tap_gitlab_lock) =
      ''{name: tap-gitlab, variant: meltano}''"
    by (simp add: lock_eval)
  show ?thesis
    using PluginLockService_save_exists_policy [OF lock, of "lockfile_disk ''edited by hand''" True]
      PluginLockService_save_exists_policy [OF lock, of "disk_of []" False]
    by (simp add: there absent w dump)
qed

text \<open>
  C6. After a \<^verbatim>\<open>PluginLock.save\<close> that succeeded, the lockfile holds the JSON text of the
  canonical mapping of the locked plugin, and \<^verbatim>\<open>PluginLock.load\<close> with the default
  loader returns a standalone plugin whose canonical mapping is the one that was written,
  given the contract of the JSON codec and of \<^verbatim>\<open>StandalonePlugin\<close> for that mapping.
\<close>

theorem PluginLock_save_load_round_trip:
  assumes "fst (PluginLock_save api lock w) = None"
    and "canonical_round_trip api (locked_canonical api lock)"
  shows "read_file (lock_path lock) (snd (PluginLock_save api lock w)) =
           Inr (json_dump api (locked_canonical api lock)) \<and>
         (\<exists>sp. PluginLock_load api create (default_loader api) lock (snd (PluginLock_save api lock w)) =
                 (Inr sp, snd (PluginLock_save api lock w)) \<and>
               canonical api sp = locked_canonical api lock)"
proof -
  let ?w' = "snd (PluginLock_save api lock w)"
  let ?c = "locked_canonical api lock"
  have "writable w (lock_path lock)"
    using assms(1) PluginLock_save_cases [of api lock w] by auto
  then have rd: "read_file (lock_path lock) ?w' = Inr (json_dump api ?c)"
    by (simp add: PluginLock_save_writes)
  from assms(2) obtain sp where sp: "StandalonePlugin api ?c = Inr sp" "canonical api sp = ?c"
    and js: "json_load api (json_dump api ?c) = Inr ?c"
    by (auto simp: canonical_round_trip_def split: sum.splits)
  have "load_inner (default_loader api) lock ?w' = Inr sp"
    by (simp add: load_inner_def rd default_loader_def js sp)
  then have "PluginLock_load api create (default_loader api) lock ?w' = (Inr sp, ?w')"
    by (simp add: PluginLock_load_def)
  with rd sp show ?thesis
    by blast
qed

theorem PluginLock_save_load_round_trip_witness:
  "fst (PluginLock_load demo_api False (default_loader demo_api) tap_gitlab_lock
          (snd (PluginLock_save demo_api tap_gitlab_lock (disk_of [])))) =
     Inr ''name: tap-gitlab, variant: meltano'' \<and>
   canonical demo_api (from_variant demo_api ''meltano'' ''tap-gitlab'') =
     ''name: tap-gitlab, variant: meltano''"
proof -
  have saved: "fst (PluginLock_save demo_api tap_gitlab_lock (disk_of [])) = None"
    by (simp add: lock_eval)
  have contract: "canonical_round_trip demo_api (locked_canonical demo_api tap_gitlab_lock)"
    by (simp add: canonical_round_trip_def lock_eval)
  have c: "locked_canonical demo_api tap_gitlab_lock = ''name: tap-gitlab, variant: meltano''"
    by (simp add: lock_eval)
  have v: "canonical demo_api (from_variant demo_api ''meltano'' ''tap-gitlab'') =
      ''name: tap-gitlab, variant: meltano''"
    by (simp add: demo_api_def)
  show ?thesis
    using PluginLock_save_load_round_trip [OF saved contract, of False]
    by (auto simp: c v) (simp add: demo_api_def)
qed

text \<open>
  C7. With nothing at the lock path, \<^verbatim>\<open>PluginLock.load\<close> raises \<^verbatim>\<open>FileNotFoundError\<close>
  when \<^verbatim>\<open>create\<close> is false; when \<^verbatim>\<open>create\<close> is true it calls \<^verbatim>\<open>save\<close> and runs the
  loader again on the lockfile just written, and what it returns, and the disk it leaves,
  are those of \<^verbatim>\<open>save\<close> followed by a plain \<^verbatim>\<open>load\<close>.
\<close>

theorem PluginLock_load_or_initialize:
  assumes "\<not> path_exists w (lock_path lock)"
  shows "PluginLock_load api False loader lock w = (Inl FileNotFoundError, w) \<and>
         PluginLock_load api True loader lock w =
           (case PluginLock_save api lock w of
              (Some e, w1) \<Rightarrow> (Inl e, w1)
            | (None, w1) \<Rightarrow> (load_inner loader lock w1, w1)) \<and>
         PluginLock_load api True loader lock w = save_then_load api loader lock w"
proof -
  have absent: "load_inner loader lock w = Inl FileNotFoundError"
    using assms by (rule load_inner_absent)
  then have "PluginLock_load api False loader lock w = (Inl FileNotFoundError, w)"
    by (simp add: PluginLock_load_no_create)
  moreover have "PluginLock_load api True loader lock w =
           (case PluginLock_save api lock w of
              (Some e, w1) \<Rightarrow> (Inl e, w1)
            | (None, w1) \<Rightarrow> (load_inner loader lock w1, w1))"
    using absent by (rule PluginLock_load_create_absent)
  moreover have "PluginLock_load api True loader lock w = save_then_load api loader lock w"
    using absent
    by (simp add: PluginLock_load_create_absent save_then_load_def PluginLock_load_no_create
        split: prod.split option.split)
  ultimately show ?thesis
    by simp
qed

theorem PluginLock_load_or_initialize_witness:
  "fst (PluginLock_load demo_api False (default_loader demo_api) tap_gitlab_lock (disk_of [])) =
     Inl FileNotFoundError \<and>
   fst (PluginLock_load demo_api True (default_loader demo_api) tap_gitlab_lock (disk_of [])) =
     Inr ''name: tap-gitlab, variant: meltano'' \<and>
   PluginLock_load demo_api True (default_loader demo_api) tap_gitlab_lock (disk_of []) =
     save_then_load demo_api (default_loader demo_api) tap_gitlab_lock (disk_of [])"
proof -
  have absent: "\<not> path_exists (disk_of []) (lock_path tap_gitlab_lock)"
    by (simp add: lock_eval)
  show ?thesis
    using PluginLock_load_or_initialize [OF absent, of demo_api "default_loader demo_api"]
    by (simp add: save_then_load_def lock_eval)
qed

text \<open>
  C10. \<^verbatim>\<open>PluginLock.load\<close> tells a missing lockfile from nothing but the
  \<^verbatim>\<open>FileNotFoundError\<close> it catches around the whole attempt. With a lockfile on disk
  and a loader that raises \<^verbatim>\<open>FileNotFoundError\<close> on it, \<^verbatim>\<open>load(create=False)\<close> raises
  that error and leaves the disk alone, as for a missing lockfile, and
  \<^verbatim>\<open>load(create=True)\<close> calls \<^verbatim>\<open>save\<close>, which at a writable path replaces the
  lockfile, and runs the loader again on the new text.
\<close>

theorem PluginLock_load_loader_not_found:
  assumes "lookup_file w (lock_path lock) = Some f"
    and "loader (content f) = Inl FileNotFoundError"
  shows "PluginLock_load api False loader lock w = (Inl FileNotFoundError, w) \<and>
         PluginLock_load api True loader lock w =
           (case PluginLock_save api lock w of
              (Some e, w1) \<Rightarrow> (Inl e, w1)
            | (None, w1) \<Rightarrow> (load_inner loader lock w1, w1)) \<and>
         (writable w (lock_path lock) \<longrightarrow>
            PluginLock_load api True loader lock w =
              (loader (json_dump api (locked_canonical api lock)), snd (PluginLock_save api lock w)) \<and>
            read_file (lock_path lock) (snd (PluginLock_load api True loader lock w)) =
              Inr (json_dump api (locked_canonical api lock)))"
proof -
  have raised: "load_inner loader lock w = Inl FileNotFoundError"
    using assms by (simp add: load_inner_def read_file_def)
  then have no_create: "PluginLock_load api False loader lock w = (Inl FileNotFoundError, w)"
    by (simp add: PluginLock_load_no_create)
  have create: "PluginLock_load api True loader lock w =
           (case PluginLock_save api lock w of
              (Some e, w1) \<Rightarrow> (Inl e, w1)
            | (None, w1) \<Rightarrow> (load_inner loader lock w1, w1))"
    using raised by (rule PluginLock_load_create_absent)
  have "PluginLock_load api True loader lock w =
              (loader (json_dump api (locked_canonical api lock)), snd (PluginLock_save api lock w)) \<and>
            read_file (lock_path lock) (snd (PluginLock_load api True loader lock w)) =
              Inr (json_dump api (locked_canonical api lock))"
    if "writable w (lock_path lock)"
  proof -
    from PluginLock_save_writes [OF that, of api]
    obtain w1 where s: "PluginLock_save api lock w = (None, w1)"
      and rd: "read_file (lock_path lock) w1 = Inr (json_dump api (locked_canonical api lock))"
      by (cases "PluginLock_save api lock w") auto
    then show ?thesis
      by (simp add: create load_inner_def)
  qed
  with no_create create show ?thesis
    by blast
qed

theorem PluginLock_load_loader_not_found_witness:
  "PluginLock_load demo_api False failing_loader tap_gitlab_lock (lockfile_disk ''{pinned}'') =
     (Inl FileNotFoundError, lockfile_disk ''{pinned}'') \<and>
   fst (PluginLock_load demo_api True failing_loader tap_gitlab_lock (lockfile_disk ''{pinned}'')) =
     Inl FileNotFoundError \<and>
   read_file (lock_path tap_gitlab_lock)
     (snd (PluginLock_load demo_api True failing_loader tap_gitlab_lock (lockfile_disk ''{pinned}''))) =
     Inr ''{name: tap-gitlab, variant: meltano}''"
proof -
  have there: "lookup_file (lockfile_disk ''{pinned}'') (lock_path tap_gitlab_lock) =
      Some \<lparr>content = ''{pinned}'', st_ctime_ns = 1\<rparr>"
    by (simp add: lock_eval)
  have fails: "failing_loader (content \<lparr>content = ''{pinned}'', st_ctime_ns = 1\<rparr>) = Inl FileNotFoundError"
    by (simp add: failing_loader_def)
  have w: "writable (lockfile_disk ''{pinned}'') (lock_path tap_gitlab_lock)"
    by (simp add: lock_eval)
  have dump: "json_dump demo_api (locked_canonical demo_api tap_gitlab_lock) =
      ''{name: tap-gitlab, variant: meltano}''"
    by (simp add: lock_eval)
  show ?thesis
    using PluginLock_load_loader_not_found [where w = "lockfile_disk ''{pinned}''"
        and lock = tap_gitlab_lock and loader = failing_loader and api = demo_api
        and f = "\<lparr>content = ''{pinned}'', st_ctime_ns = 1\<rparr>", OF there fails, THEN conjunct1]
      PluginLock_load_loader_not_found [where w = "lockfile_disk ''{pinned}''"
        and lock = tap_gitlab_lock and loader = failing_loader and api = demo_api
        and f = "\<lparr>content = ''{pinned}'', st_ctime_ns = 1\<rparr>", OF there fails,
        THEN conjunct2, THEN conjunct2]
    by (auto simp: w dump failing_loader_def)
qed










end
